theory Spec2Isabelle
  imports Main "HOL-Library.Word"
begin

unbundle bit_operations_syntax

section \<open>Bytes, slices and Python built-ins\<close>

text \<open>
  A Python \<open>bytes\<close> object is a list of 8-bit words. Indexing it yields a Python integer
  in \<open>0..255\<close>, written \<open>uint (data ! i)\<close> where the source goes on to do integer
  arithmetic with it. Python integers are unbounded: they are \<open>int\<close>.
\<close>

type_synonym byte = "8 word"
type_synonym bytes = "byte list"

text \<open>\<open>data[a:b]\<close> for \<open>0 \<le> a\<close>, \<open>0 \<le> b\<close>: empty when \<open>b \<le> a\<close>, cut at the end of the data.\<close>

definition slice :: "nat \<Rightarrow> nat \<Rightarrow> 'a list \<Rightarrow> 'a list" where
  "slice a b xs = take (b - a) (drop a xs)"

text \<open>The exceptions of the source that a caller can observe.\<close>

datatype exn = ValueError | BinasciiError | StructError | OtherException

text \<open>\<open>binascii.Error\<close> is a subclass of \<open>ValueError\<close>: \<open>except ValueError\<close> catches both.\<close>

definition is_ValueError :: "exn \<Rightarrow> bool" where
  "is_ValueError e = (e = ValueError \<or> e = BinasciiError)"

text \<open>\<open>f'{b:02x}'\<close> and \<open>bytes.hex()\<close>: two lower-case hexadecimal digits per byte.\<close>

definition hex_digit :: "nat \<Rightarrow> char" where
  "hex_digit n = (if n < 10 then char_of (48 + n) else char_of (87 + n))"

definition hex2 :: "byte \<Rightarrow> string" where
  "hex2 b = [hex_digit (unat b div 16), hex_digit (unat b mod 16)]"

definition hex :: "bytes \<Rightarrow> string" where
  "hex bs = concat (map hex2 bs)"

text \<open>
  \<open>binascii.unhexlify\<close> on a string: pairs of hexadecimal digits of either case.
  A string with a character outside ASCII raises \<open>ValueError\<close> before anything is
  decoded; an odd length or a character that is no digit raises \<open>binascii.Error\<close>.
\<close>

definition hex_val :: "char \<Rightarrow> nat option" where
  "hex_val c =
     (let n = (of_char c :: nat) in
      if 48 \<le> n \<and> n \<le> 57 then Some (n - 48)
      else if 97 \<le> n \<and> n \<le> 102 then Some (n - 87)
      else if 65 \<le> n \<and> n \<le> 70 then Some (n - 55)
      else None)"

fun a2b_hex :: "string \<Rightarrow> bytes option" where
  "a2b_hex [] = Some []"
| "a2b_hex [c] = None"
| "a2b_hex (c # d # cs) =
     (case (hex_val c, hex_val d, a2b_hex cs) of
        (Some h, Some l, Some bs) \<Rightarrow> Some (of_nat (16 * h + l) # bs)
      | _ \<Rightarrow> None)"

definition unhexlify :: "string \<Rightarrow> exn + bytes" where
  "unhexlify s =
     (if list_ex (\<lambda>c. (of_char c :: nat) \<ge> 128) s then Inl ValueError
      else case a2b_hex s of None \<Rightarrow> Inl BinasciiError | Some bs \<Rightarrow> Inr bs)"

text \<open>\<open>s.replace(" ", "")\<close>\<close>

definition remove_spaces :: "string \<Rightarrow> string" where
  "remove_spaces s = filter (\<lambda>c. c \<noteq> CHR '' '') s"

section \<open>Codec primitives of \<open>MBusProtocol\<close>\<close>

subsection \<open>\<open>calculate_crc\<close> and \<open>check_crc\<close>\<close>

text \<open>
  The accumulator \<open>crc\<close> starts at 0, takes the XOR of a byte and is then only shifted
  right and XORed with \<open>0x8C\<close>: it never leaves 8 bits, so it is an 8-bit word here.
  \<open>crc_shift\<close> is the body of the inner \<open>for _ in range(8)\<close>, \<open>crc_rounds n\<close> runs it
  \<open>n\<close> times, \<open>crc_byte\<close> is the body of the outer loop over the data.
\<close>

definition crc_shift :: "byte \<Rightarrow> byte" where
  "crc_shift crc = (if crc AND 0x01 \<noteq> 0 then drop_bit 1 crc XOR 0x8C else drop_bit 1 crc)"

primrec crc_rounds :: "nat \<Rightarrow> byte \<Rightarrow> byte" where
  "crc_rounds 0 crc = crc"
| "crc_rounds (Suc n) crc = crc_rounds n (crc_shift crc)"

definition crc_byte :: "byte \<Rightarrow> byte \<Rightarrow> byte" where
  "crc_byte crc b = crc_rounds 8 (crc XOR b)"

definition calculate_crc :: "bytes \<Rightarrow> byte" where
  "calculate_crc data = foldl crc_byte 0 data"

text \<open>\<open>data[:-1]\<close> is \<open>butlast data\<close> and \<open>data[-1]\<close> is \<open>last data\<close>; both are read
  only when the data has at least three bytes.\<close>

definition check_crc :: "bytes \<Rightarrow> bool" where
  "check_crc data =
     (if length data < 3 then False
      else calculate_crc (butlast data) = last data)"

subsection \<open>\<open>decode_manufacturer\<close> and \<open>encode_manufacturer\<close>\<close>

text \<open>\<open>chr\<close> is applied to values in \<open>64..95\<close> only, where \<open>char_of\<close> is exact.\<close>

definition decode_manufacturer :: "int \<Rightarrow> string" where
  "decode_manufacturer code =
     (let char1 = (drop_bit 10 code AND 0x1F) + 64;
          char2 = (drop_bit 5 code AND 0x1F) + 64;
          char3 = (code AND 0x1F) + 64
      in [char_of char1, char_of char2, char_of char3])"

definition encode_manufacturer :: "string \<Rightarrow> exn + int" where
  "encode_manufacturer code =
     (if length code \<noteq> 3 then Inl ValueError
      else
        let c1 = of_char (code ! 0) - 64;
            c2 = of_char (code ! 1) - 64;
            c3 = of_char (code ! 2) - 64
        in Inr (push_bit 10 c1 OR push_bit 5 c2 OR c3))"

text \<open>The letters the claim about the round trip speaks of: \<open>'A'..'_'\<close>, the codes
  \<open>65..95\<close>.\<close>

definition letter_in_range :: "char \<Rightarrow> bool" where
  "letter_in_range c = (65 \<le> (of_char c :: nat) \<and> (of_char c :: nat) \<le> 95)"

section \<open>\<open>MBusFrame\<close>\<close>

datatype MBusFrameType = SINGLE_CHAR | SHORT | CONTROL | LONG | WMBUS_APL | WMBUS_NWL

record MBusFrame =
  frame_type :: MBusFrameType
  frame_length :: int
  frame_control :: int
  frame_address :: int
  frame_control_information :: int
  frame_data :: bytes
  frame_checksum :: int
  frame_manufacturer :: "string option"
  frame_identification :: "string option"
  frame_version :: "int option"
  frame_device_type :: "int option"

text \<open>\<open>MBusFrame.__init__\<close>\<close>

definition MBusFrame_init :: MBusFrame where
  "MBusFrame_init =
     \<lparr> frame_type = LONG, frame_length = 0, frame_control = 0, frame_address = 0,
       frame_control_information = 0, frame_data = [], frame_checksum = 0,
       frame_manufacturer = None, frame_identification = None,
       frame_version = None, frame_device_type = None \<rparr>"

text \<open>
  \<open>MBusFrame.parse\<close>: \<open>None\<close> is Python's \<open>None\<close>. Every index read is guarded by
  the length checks before it, as in the source, so no \<open>IndexError\<close> can arise.
\<close>

definition parse_short :: "bytes \<Rightarrow> MBusFrame option" where
  "parse_short data =
     (let frame = MBusFrame_init
            \<lparr> frame_type := SHORT,
              frame_control := uint (data ! 1),
              frame_address := uint (data ! 2),
              frame_checksum := uint (data ! 3) \<rparr>
      in if \<not> check_crc (take 4 data) then None else Some frame)"

definition parse_long :: "bytes \<Rightarrow> MBusFrame option" where
  "parse_long data =
     (if length data < 9 then None
      else
        let length1 = unat (data ! 1); length2 = unat (data ! 2) in
        if length1 \<noteq> length2 then None
        else if data ! 3 \<noteq> 0x68 then None
        else if length data < length1 + 6 then None
        else
          let frame = MBusFrame_init
                \<lparr> frame_length := int length1,
                  frame_control := uint (data ! 4),
                  frame_address := uint (data ! 5),
                  frame_control_information := uint (data ! 6),
                  frame_data := slice 7 (7 + length1 - 3) data,
                  frame_checksum := uint (data ! (7 + length1 - 3)) \<rparr>;
              frame = (if length1 = 3 then frame\<lparr>frame_type := CONTROL\<rparr>
                       else frame\<lparr>frame_type := LONG\<rparr>)
          in if \<not> check_crc (slice 4 (7 + length1 - 2) data) then None else Some frame)"

definition parse_wmbus :: "bytes \<Rightarrow> MBusFrame option" where
  "parse_wmbus data =
     (if length data < 10 then None
      else
        let manufacturer_code = push_bit 8 (uint (data ! 3)) OR uint (data ! 2);
            id_bytes = slice 4 8 data;
            frame = MBusFrame_init
              \<lparr> frame_type := WMBUS_APL,
                frame_length := uint (data ! 0),
                frame_control := uint (data ! 1),
                frame_manufacturer := Some (decode_manufacturer manufacturer_code),
                frame_identification := Some (concat (map hex2 (rev id_bytes))),
                frame_version := Some (uint (data ! 8)),
                frame_device_type := Some (uint (data ! 9)) \<rparr>;
            frame = (if length data > 10
                     then frame\<lparr>frame_control_information := uint (data ! 10)\<rparr>
                     else frame);
            frame = (if length data > 11 then frame\<lparr>frame_data := drop 11 data\<rparr> else frame)
        in Some frame)"

definition MBusFrame_parse :: "bytes \<Rightarrow> MBusFrame option" where
  "MBusFrame_parse data =
     (if data = [] \<or> length data < 1 then None
      else if length data = 1 \<and> data ! 0 = 0xE5
        then Some (MBusFrame_init\<lparr>frame_type := SINGLE_CHAR\<rparr>)
      else if length data < 5 then None
      else if data ! 0 = 0x10 then parse_short data
      else if data ! 0 = 0x68 then parse_long data
      else if data ! 0 \<ge> 0x44 \<and> data ! 0 \<le> 0x4F then parse_wmbus data
      else None)"

section \<open>\<open>MBusDataRecord\<close>\<close>

text \<open>
  What \<open>parsed_value\<close> can hold. A float is kept as the bytes \<open>struct.unpack\<close> read it
  from, and a decoded text as the bytes \<open>bytes.decode\<close> was given: IEEE-754 and UTF-8
  decoding are not modelled, and no statement below depends on them.
\<close>

datatype parsed_value =
    PyNone
  | PyInt int
  | PyFloat bytes
  | PyBytes bytes
  | PyStr string
  | PyDecoded bytes

record MBusDataRecord =
  rec_dif :: int
  rec_vif :: int
  rec_value :: bytes
  rec_storage_number :: int
  rec_tariff :: int
  rec_subunit :: int
  rec_function :: int
  rec_dife_data :: "int list"
  rec_vife_data :: "int list"
  rec_parsed_value :: parsed_value

text \<open>\<open>int.from_bytes(value, byteorder='little', signed=...)\<close>\<close>

fun le_uint :: "bytes \<Rightarrow> int" where
  "le_uint [] = 0"
| "le_uint (b # bs) = uint b + 256 * le_uint bs"

definition le_sint :: "bytes \<Rightarrow> int" where
  "le_sint bs =
     (let u = le_uint bs; n = 8 * length bs
      in if bs \<noteq> [] \<and> u \<ge> 2 ^ (n - 1) then u - 2 ^ n else u)"

text \<open>\<open>struct.unpack(fmt, value)[0]\<close> for the integer formats: \<open>struct.error\<close> unless the
  value has exactly the format's size.\<close>

definition unpack_signed :: "nat \<Rightarrow> bytes \<Rightarrow> exn + int" where
  "unpack_signed sz bs = (if length bs \<noteq> sz then Inl StructError else Inr (le_sint bs))"

definition unpack_unsigned :: "nat \<Rightarrow> bytes \<Rightarrow> exn + int" where
  "unpack_unsigned sz bs = (if length bs \<noteq> sz then Inl StructError else Inr (le_uint bs))"

definition unpack_float :: "nat \<Rightarrow> bytes \<Rightarrow> exn + parsed_value" where
  "unpack_float sz bs = (if length bs \<noteq> sz then Inl StructError else Inr (PyFloat bs))"

text \<open>\<open>int(value.hex(), 16)\<close>: the bytes read as one big-endian number; \<open>ValueError\<close> on
  the empty string.\<close>

definition int_of_hex :: "bytes \<Rightarrow> exn + int" where
  "int_of_hex bs = (if bs = [] then Inl ValueError
                    else Inr (foldl (\<lambda>acc b. 16 * (16 * acc) + uint b) 0 bs))"

text \<open>\<open>_decode_bcd\<close>: the loop \<open>for _ in range(digits)\<close> over \<open>(value, result, multiplier)\<close>.\<close>

primrec decode_bcd_loop :: "nat \<Rightarrow> int \<Rightarrow> int \<Rightarrow> int \<Rightarrow> int" where
  "decode_bcd_loop 0 v result multiplier = result"
| "decode_bcd_loop (Suc n) v result multiplier =
     (let digit = v AND 0x0F;
          digit = (if digit > 9 then 9 else digit)
      in decode_bcd_loop n (drop_bit 4 v) (result + digit * multiplier) (multiplier * 10))"

definition decode_bcd :: "int \<Rightarrow> nat \<Rightarrow> int" where
  "decode_bcd v digits = decode_bcd_loop digits v 0 1"

text \<open>\<open>f"{n:02d}"\<close> and \<open>f"{n:04d}"\<close> for a number that is not negative.\<close>

fun dec_digits :: "nat \<Rightarrow> nat \<Rightarrow> string" where
  "dec_digits 0 n = []"
| "dec_digits (Suc k) n = dec_digits k (n div 10) @ [char_of (48 + n mod 10)]"

definition decimal_length :: "nat \<Rightarrow> nat" where
  "decimal_length n = (if n < 10 then 1 else if n < 100 then 2 else if n < 1000 then 3 else 4)"

text \<open>The fields formatted below are at most 2015, so four digits always suffice.\<close>

definition format_d :: "nat \<Rightarrow> nat \<Rightarrow> string" where
  "format_d width n = dec_digits (max width (decimal_length n)) n"

definition invalid_suffix :: string where
  "invalid_suffix = '' (Ge'' @ [char_of (0xE7 :: nat)] @ ''ersiz)''"

definition parse_date :: "bytes \<Rightarrow> string" where
  "parse_date data =
     (if length data < 2 then ''Invalid date data''
      else
        let day = uint (data ! 0) AND 0x1F;
            month = (uint (data ! 1) AND 0x0F) OR drop_bit 5 (uint (data ! 0) AND 0xE0);
            year = 2000 + drop_bit 4 (uint (data ! 1) AND 0xF0);
            s = format_d 4 (nat year) @ ''-'' @ format_d 2 (nat month) @ ''-'' @ format_d 2 (nat day)
        in if month < 1 \<or> month > 12 \<or> day < 1 \<or> day > 31 then s @ invalid_suffix else s)"

definition parse_datetime :: "bytes \<Rightarrow> string" where
  "parse_datetime data =
     (if length data < 4 then ''Invalid datetime data''
      else
        let date_str = parse_date (take 2 data);
            minute = uint (data ! 2) AND 0x3F;
            hour = uint (data ! 3) AND 0x1F;
            s = date_str @ '' '' @ format_d 2 (nat hour) @ '':'' @ format_d 2 (nat minute)
        in if hour > 23 \<or> minute > 59 then s @ invalid_suffix else s)"

text \<open>
  \<open>_parse_value\<close>. \<open>parse_by_dif\<close> is the chain over \<open>self.dif\<close>; an exception in it
  (\<open>Inl\<close>) is caught by the method's \<open>except Exception\<close>, which stores \<open>value.hex()\<close> and
  skips the VIF-specific part. The members of the enumeration \<open>DIF\<close> are written as their
  numbers, in the order of the source.
\<close>

definition parse_by_dif :: "int \<Rightarrow> bytes \<Rightarrow> exn + parsed_value" where
  "parse_by_dif d v =
     (if d = 0x00 then Inr PyNone
      else if d = 0x01 then map_sum id PyInt (unpack_signed 1 v)
      else if d = 0x02 then map_sum id PyInt (unpack_signed 2 v)
      else if d = 0x03 then
        (let value_int = le_sint v;
             value_int = (if value_int AND 0x800000 \<noteq> 0 then value_int - 0x1000000 else value_int)
         in Inr (PyInt value_int))
      else if d = 0x04 then map_sum id PyInt (unpack_signed 4 v)
      else if d = 0x05 then unpack_float 4 v
      else if d = 0x06 then
        (let value_int = le_sint v;
             value_int = (if value_int AND 0x800000000000 \<noteq> 0
                          then value_int - 0x1000000000000 else value_int)
         in Inr (PyInt value_int))
      else if d = 0x07 then map_sum id PyInt (unpack_signed 8 v)
      else if d = 0x10 then map_sum id (\<lambda>bcd. PyInt (decode_bcd bcd 2)) (int_of_hex v)
      else if d = 0x11 then map_sum id (\<lambda>bcd. PyInt (decode_bcd bcd 4)) (int_of_hex v)
      else if d = 0x12 then map_sum id (\<lambda>bcd. PyInt (decode_bcd bcd 6)) (int_of_hex v)
      else if d = 0x13 then map_sum id (\<lambda>bcd. PyInt (decode_bcd bcd 8)) (int_of_hex v)
      else if d = 0x17 then
        (if length v > 0 then
           (let n = unat (v ! 0)
            in if n + 1 \<le> length v then Inr (PyBytes (slice 1 (n + 1) v))
               else Inr (PyBytes (drop 1 v)))
         else Inr (PyBytes v))
      else if d = 0x0B then Inr (PyDecoded v)
      else Inr (PyStr (hex v)))"

definition parse_value :: "int \<Rightarrow> int \<Rightarrow> bytes \<Rightarrow> parsed_value" where
  "parse_value d vf v =
     (case parse_by_dif d v of
        Inl e \<Rightarrow> PyStr (hex v)
      | Inr p \<Rightarrow>
          if vf = 0xA8 \<and> length v \<ge> 2 then PyStr (parse_date v)
          else if vf = 0xB0 \<and> length v \<ge> 4 then PyStr (parse_datetime v)
          else p)"

text \<open>\<open>MBusDataRecord.__init__\<close>\<close>

definition MBusDataRecord_init ::
  "int \<Rightarrow> int \<Rightarrow> bytes \<Rightarrow> int \<Rightarrow> int \<Rightarrow> int \<Rightarrow> int \<Rightarrow> MBusDataRecord" where
  "MBusDataRecord_init d vf v storage_number tariff subunit func =
     \<lparr> rec_dif = d, rec_vif = vf, rec_value = v, rec_storage_number = storage_number,
       rec_tariff = tariff, rec_subunit = subunit, rec_function = func,
       rec_dife_data = [], rec_vife_data = [], rec_parsed_value = parse_value d vf v \<rparr>"

section \<open>\<open>MBusProtocol.parse_data_records\<close>\<close>

text \<open>\<open>_get_data_length\<close>: the dictionary \<open>dif_lengths\<close>, its keys written as numbers, and
  \<open>dif_lengths.get(dif, 0)\<close>.\<close>

definition dif_lengths :: "(int \<times> nat) list" where
  "dif_lengths =
     [(0x00, 0), (0x01, 1), (0x02, 2), (0x03, 3), (0x04, 4), (0x05, 4), (0x06, 6), (0x07, 8),
      (0x08, 1), (0x10, 1), (0x11, 2), (0x12, 3), (0x13, 4), (0x14, 4), (0x15, 6), (0x16, 8),
      (0x17, 1), (0x0B, 1), (0x0C, 0)]"

definition get_data_length :: "int \<Rightarrow> nat" where
  "get_data_length d = (case map_of dif_lengths d of Some n \<Rightarrow> n | None \<Rightarrow> 0)"

text \<open>
  The inner loop \<open>while dif & 0x80\<close> over the DIFE bytes, entered with the extension bit
  of the DIF set. The DIF does not change in the loop, so the loop ends at one of its two
  \<open>break\<close>s: the data is used up, or a DIFE has no extension bit. The state is the cursor
  \<open>i\<close>, \<open>dife_bytes\<close>, \<open>storage_number\<close>, \<open>tariff\<close> and \<open>device\<close>.
\<close>

function dife_loop ::
  "bytes \<Rightarrow> nat \<Rightarrow> int list \<Rightarrow> int \<Rightarrow> int \<Rightarrow> int \<Rightarrow> nat \<times> int list \<times> int \<times> int \<times> int" where
  "dife_loop data i dife_bytes storage_number tariff device =
     (if i \<ge> length data then (i, dife_bytes, storage_number, tariff, device)
      else
        let dife = uint (data ! i);
            dife_bytes = dife_bytes @ [dife];
            i = i + 1;
            storage_number = storage_number OR push_bit ((length dife_bytes - 1) * 4) (dife AND 0x0F);
            tariff = tariff OR push_bit ((length dife_bytes - 1) * 2) (drop_bit 4 (dife AND 0x30));
            device = (if dife AND 0x40 \<noteq> 0 then 1 else device)
        in if \<not> (dife AND 0x80 \<noteq> 0) then (i, dife_bytes, storage_number, tariff, device)
           else dife_loop data i dife_bytes storage_number tariff device)"
  by pat_completeness auto
termination
  by (relation "measure (\<lambda>(data, i, _). length data - i)") auto

declare dife_loop.simps [simp del]

text \<open>The inner loop \<open>while vif & 0x80\<close> over the VIFE bytes, in the same way.\<close>

function vife_loop :: "bytes \<Rightarrow> nat \<Rightarrow> int list \<Rightarrow> nat \<times> int list" where
  "vife_loop data i vife_bytes =
     (if i \<ge> length data then (i, vife_bytes)
      else
        let vife = uint (data ! i);
            vife_bytes = vife_bytes @ [vife];
            i = i + 1
        in if \<not> (vife AND 0x80 \<noteq> 0) then (i, vife_bytes)
           else vife_loop data i vife_bytes)"
  by pat_completeness auto
termination
  by (relation "measure (\<lambda>(data, i, _). length data - i)") auto

declare vife_loop.simps [simp del]

text \<open>
  The debug line that ends a pass of the outer loop. Python builds the f-string before
  \<open>logger.debug\<close> is called, whatever the log level, so \<open>storage_number\<close>, \<open>tariff\<close> and
  \<open>record.parsed_value\<close> are converted to decimal text on every pass. Since CPython 3.11
  (and the security releases of 3.7 to 3.10) the conversion of an integer of more than
  \<open>sys.get_int_max_str_digits()\<close> decimal digits raises \<open>ValueError\<close>; the limit is 4300
  unless the interpreter is configured otherwise. The hexadecimal conversions
  \<open>{dif_value:02x}\<close> and \<open>{vif_value:02x}\<close> have no limit, and \<open>get_unit\<close> formats
  numbers of a few digits only.
\<close>

definition int_max_str_digits :: nat where
  "int_max_str_digits = 4300"

fun decimal_digits :: "nat \<Rightarrow> nat" where
  "decimal_digits n = (if n < 10 then 1 else Suc (decimal_digits (n div 10)))"

declare decimal_digits.simps [simp del]

definition str_int_raises :: "int \<Rightarrow> bool" where
  "str_int_raises n = (decimal_digits (nat \<bar>n\<bar>) > int_max_str_digits)"

definition debug_line_raises :: "int \<Rightarrow> int \<Rightarrow> MBusDataRecord \<Rightarrow> bool" where
  "debug_line_raises storage_number tariff rec =
     (str_int_raises storage_number \<or> str_int_raises tariff
      \<or> (case rec_parsed_value rec of PyInt n \<Rightarrow> str_int_raises n | _ \<Rightarrow> False))"

text \<open>
  One pass through the body of the outer loop \<open>while i < len(data)\<close>, entered at cursor
  \<open>i0 < len(data)\<close>. \<open>Inr None\<close> is a \<open>break\<close>; \<open>Inr (Some (i, rec))\<close> is a pass that
  ends with \<open>records.append(rec)\<close>, the debug line and the cursor at \<open>i\<close>; \<open>Inl e\<close> is
  an exception that leaves \<open>parse_data_records\<close>. Every read \<open>data[i]\<close> stands behind a
  check \<open>i < len(data)\<close>, so the \<open>except IndexError\<close> of the source is never entered,
  and it catches nothing else: a \<open>ValueError\<close> of the debug line leaves the function.
\<close>

definition parse_iteration :: "bytes \<Rightarrow> nat \<Rightarrow> exn + (nat \<times> MBusDataRecord) option" where
  "parse_iteration data i0 =
     (let dif = uint (data ! i0);
          i = i0 + 1;
          dif_value = dif AND 0x0F;
          func = drop_bit 4 (dif AND 0x30);
          (i, dife_bytes, storage_number, tariff, device) =
             (if dif AND 0x80 \<noteq> 0 then dife_loop data i [] 0 0 0 else (i, [], 0, 0, 0))
      in if i \<ge> length data then Inr None
         else
           let vif = uint (data ! i);
               i = i + 1;
               (i, vife_bytes) = (if vif AND 0x80 \<noteq> 0 then vife_loop data i [] else (i, []));
               vif_value = vif AND 0x7F;
               len = get_data_length dif_value;
               len = (if dif_value = 0x17 \<or> dif_value = 0x0B
                      then (if i < length data then unat (data ! i) + 1 else len)
                      else len)
           in if i + len > length data then Inr None
              else
                let v = slice i (i + len) data;
                    i = i + len;
                    rec = MBusDataRecord_init dif_value vif_value v storage_number tariff device func;
                    rec = rec\<lparr>rec_dife_data := dife_bytes, rec_vife_data := vife_bytes\<rparr>
                in if debug_line_raises storage_number tariff rec then Inl ValueError
                   else Inr (Some (i, rec)))"

text \<open>
  The outer loop. It is defined without a termination argument: a run that never ends
  would be \<open>None\<close>. \<open>Some (Inr records)\<close> is the list the source returns and
  \<open>Some (Inl e)\<close> an exception it raises.
\<close>

partial_function (option) parse_loop ::
  "bytes \<Rightarrow> nat \<Rightarrow> MBusDataRecord list \<Rightarrow> (exn + MBusDataRecord list) option" where
  "parse_loop data i records =
     (if i < length data then
        (case parse_iteration data i of
           Inl e \<Rightarrow> Some (Inl e)
         | Inr None \<Rightarrow> Some (Inr records)
         | Inr (Some (i', rec)) \<Rightarrow> parse_loop data i' (records @ [rec]))
      else Some (Inr records))"

declare parse_loop.simps [code]

definition parse_data_records :: "bytes \<Rightarrow> (exn + MBusDataRecord list) option" where
  "parse_data_records data =
     (if data = [] \<or> length data < 1 then Some (Inr []) else parse_loop data 0 [])"

text \<open>The same loop with a counter \<open>n\<close> of the passes through its body in place of the
  records, the pass that ends in a \<open>break\<close> or an exception included.\<close>

partial_function (option) loop_iterations :: "bytes \<Rightarrow> nat \<Rightarrow> nat \<Rightarrow> nat option" where
  "loop_iterations data i n =
     (if i < length data then
        (case parse_iteration data i of
           Inl e \<Rightarrow> Some (n + 1)
         | Inr None \<Rightarrow> Some (n + 1)
         | Inr (Some (i', rec)) \<Rightarrow> loop_iterations data i' (n + 1))
      else Some n)"

declare loop_iterations.simps [code]

section \<open>\<open>utils/encryption.py\<close>\<close>

text \<open>
  \<open>generate_iv\<close>. The buffer is \<open>bytearray(16)\<close>; \<open>iv[i] = x\<close> is \<open>iv[i := x]\<close>, and
  every index written is below 11. A character is one 8-bit \<open>char\<close> here, so
  \<open>iv[i] = ord(c)\<close> cannot raise; the strings the telegram passes hold letters
  \<open>64..95\<close> and hexadecimal digits only. \<open>binascii.Error\<close> is caught and the
  identification is then written as characters; any other exception leaves the function.
\<close>

fun store_at :: "nat \<Rightarrow> bytes \<Rightarrow> bytes \<Rightarrow> bytes" where
  "store_at k [] iv = iv"
| "store_at k (b # bs) iv = store_at (k + 1) bs (iv[k := b])"

definition ord_bytes :: "string \<Rightarrow> bytes" where
  "ord_bytes s = map (\<lambda>c. of_nat (of_char c)) s"

definition generate_iv :: "string \<Rightarrow> string \<Rightarrow> exn + bytes" where
  "generate_iv manufacturer meter_id =
     (let iv = replicate 16 (0 :: byte);
          iv = store_at 0 (ord_bytes (take 3 manufacturer)) iv
      in case unhexlify (remove_spaces meter_id) of
           Inr id_bytes \<Rightarrow> Inr (store_at 3 (take 8 id_bytes) iv)
         | Inl e \<Rightarrow>
             if e = BinasciiError then Inr (store_at 3 (ord_bytes (take 8 meter_id)) iv)
             else Inl e)"

text \<open>
  PyCryptodome is not part of the repository: it is a parameter. \<open>AES_new key iv\<close> is
  \<open>AES.new(key, AES.MODE_CBC, iv)\<close>, a cipher object or an exception. A cipher object
  has state, so \<open>cipher_decrypt\<close> returns the object after the call next to the plaintext
  or the exception of \<open>cipher.decrypt(data)\<close>. \<open>unpad\<close> is
  \<open>unpad(\<cdot>, AES.block_size)\<close>.
\<close>

record 'c crypto =
  CRYPTO_AVAILABLE :: bool
  AES_new :: "bytes \<Rightarrow> bytes \<Rightarrow> exn + 'c"
  cipher_decrypt :: "'c \<Rightarrow> bytes \<Rightarrow> (exn + bytes) \<times> 'c"
  unpad :: "bytes \<Rightarrow> exn + bytes"

text \<open>
  The part of \<open>decrypt_aes_cbc\<close> from \<open>AES.new\<close> on. The inner \<open>try\<close> holds both
  \<open>cipher.decrypt(data)\<close> and \<open>unpad\<close>; its \<open>except ValueError\<close> calls
  \<open>cipher.decrypt(data)\<close> a second time, on the same cipher object.
\<close>

definition cbc_decrypt_unpad :: "'c crypto \<Rightarrow> bytes \<Rightarrow> bytes \<Rightarrow> bytes \<Rightarrow> exn + bytes" where
  "cbc_decrypt_unpad lib key_bytes iv data =
     (case AES_new lib key_bytes iv of
        Inl e \<Rightarrow> Inl e
      | Inr cipher \<Rightarrow>
          let (plain, cipher1) = cipher_decrypt lib cipher data;
              unpadded = (case plain of Inl e \<Rightarrow> Inl e | Inr p \<Rightarrow> unpad lib p)
          in case unpadded of
               Inr decrypted \<Rightarrow> Inr decrypted
             | Inl e \<Rightarrow> if is_ValueError e then fst (cipher_decrypt lib cipher1 data) else Inl e)"

text \<open>The body of the outer \<open>try\<close> of \<open>decrypt_aes_cbc\<close>.\<close>

definition decrypt_aes_cbc_body ::
  "'c crypto \<Rightarrow> bytes \<Rightarrow> string \<Rightarrow> string \<Rightarrow> string \<Rightarrow> exn + bytes" where
  "decrypt_aes_cbc_body lib data key manufacturer meter_id =
     (case unhexlify (remove_spaces key) of
        Inl e \<Rightarrow> Inl e
      | Inr key_bytes \<Rightarrow>
          if length key_bytes \<noteq> 16 then Inl ValueError
          else case generate_iv manufacturer meter_id of
                 Inl e \<Rightarrow> Inl e
               | Inr iv \<Rightarrow> cbc_decrypt_unpad lib key_bytes iv data)"

text \<open>\<open>decrypt_aes_cbc\<close>: \<open>except Exception\<close> turns every exception of the body into
  \<open>ValueError\<close>.\<close>

definition decrypt_aes_cbc ::
  "'c crypto \<Rightarrow> bytes \<Rightarrow> string \<Rightarrow> string \<Rightarrow> string \<Rightarrow> exn + bytes" where
  "decrypt_aes_cbc lib data key manufacturer meter_id =
     (if \<not> CRYPTO_AVAILABLE lib then Inl ValueError
      else if key = [] then Inl ValueError
      else case decrypt_aes_cbc_body lib data key manufacturer meter_id of
             Inl e \<Rightarrow> Inl ValueError
           | Inr decrypted \<Rightarrow> Inr decrypted)"

section \<open>\<open>telegram.py\<close>\<close>

record TelegramHeader =
  hdr_length :: int
  hdr_control :: int
  hdr_manufacturer :: string
  hdr_meter_id :: string
  hdr_version :: int
  hdr_meter_type :: int
  hdr_is_encrypted :: bool

text \<open>\<open>TelegramHeader.__init__\<close>\<close>

definition TelegramHeader_init ::
  "int \<Rightarrow> int \<Rightarrow> string \<Rightarrow> string \<Rightarrow> int \<Rightarrow> int \<Rightarrow> TelegramHeader" where
  "TelegramHeader_init len control manufacturer meter_id version meter_type =
     \<lparr> hdr_length = len, hdr_control = control, hdr_manufacturer = manufacturer,
       hdr_meter_id = meter_id, hdr_version = version, hdr_meter_type = meter_type,
       hdr_is_encrypted = (control AND 0x05 \<noteq> 0) \<rparr>"

text \<open>The state of a \<open>Telegram\<close> that its constructor and \<open>decrypt\<close> read and write.
  (\<open>data_record\<close> stays \<open>None\<close> and \<open>parsed_data\<close> is written by \<open>parse_data\<close> only.)\<close>

record Telegram =
  raw_data :: bytes
  header :: "TelegramHeader option"

text \<open>\<open>Telegram._decode_manufacturer\<close>\<close>

definition Telegram_decode_manufacturer :: "int \<Rightarrow> string" where
  "Telegram_decode_manufacturer code =
     (let char1 = (drop_bit 10 code AND 0x1F) + 64;
          char2 = (drop_bit 5 code AND 0x1F) + 64;
          char3 = (code AND 0x1F) + 64
      in [char_of char1, char_of char2, char_of char3])"

text \<open>\<open>Telegram._parse_header\<close>: with ten bytes or more no read is out of range and
  \<open>struct.unpack("<H", ...)\<close> is given two bytes, so its \<open>except\<close> is never entered.\<close>

definition parse_header :: "Telegram \<Rightarrow> Telegram" where
  "parse_header t =
     (let raw = raw_data t in
      if length raw < 10 then t
      else
        let len = uint (raw ! 0);
            control = uint (raw ! 1);
            m_field = le_uint (slice 2 4 raw);
            manufacturer = Telegram_decode_manufacturer m_field;
            meter_id_bytes = slice 4 8 raw;
            meter_id = concat (map hex2 (rev meter_id_bytes));
            version = uint (raw ! 8);
            meter_type = uint (raw ! 9)
        in t\<lparr>header := Some (TelegramHeader_init len control manufacturer meter_id version meter_type)\<rparr>)"

text \<open>\<open>Telegram.__init__\<close>, given \<open>bytes\<close> and given a hexadecimal string. A string that is
  no hexadecimal text (\<open>binascii.Error\<close>) leaves an empty telegram; one with a character
  outside ASCII raises \<open>ValueError\<close>, which the constructor does not catch.\<close>

definition Telegram_init :: "bytes \<Rightarrow> Telegram" where
  "Telegram_init raw =
     (let t = \<lparr> raw_data = raw, header = None \<rparr>
      in if raw \<noteq> [] then parse_header t else t)"

definition Telegram_init_str :: "string \<Rightarrow> exn + Telegram" where
  "Telegram_init_str s =
     (case unhexlify (remove_spaces s) of
        Inr raw \<Rightarrow> Inr (Telegram_init raw)
      | Inl e \<Rightarrow> if e = BinasciiError then Inr (Telegram_init []) else Inl e)"

text \<open>\<open>Telegram.decrypt\<close>: the returned boolean and the telegram after the call.\<close>

definition Telegram_decrypt :: "'c crypto \<Rightarrow> Telegram \<Rightarrow> string \<Rightarrow> bool \<times> Telegram" where
  "Telegram_decrypt lib t key =
     (case header t of
        None \<Rightarrow> (True, t)
      | Some h \<Rightarrow>
          if \<not> hdr_is_encrypted h then (True, t)
          else if key = [] then (False, t)
          else
            case decrypt_aes_cbc lib (drop 10 (raw_data t)) key (hdr_manufacturer h) (hdr_meter_id h) of
              Inl e \<Rightarrow> (False, t)
            | Inr decrypted_data \<Rightarrow> (True, t\<lparr>raw_data := take 10 (raw_data t) @ decrypted_data\<rparr>))"

text \<open>
  \<open>Telegram._decode_value\<close>. The branch \<open>data_type.startswith("bcd")\<close> is the loop
  \<open>bcd_loop\<close> over \<open>enumerate(data)\<close>; an exception of \<open>struct.unpack\<close> is caught and
  \<open>data.hex()\<close> returned.
\<close>

fun bcd_loop :: "nat \<Rightarrow> bytes \<Rightarrow> int \<Rightarrow> int" where
  "bcd_loop i [] result = result"
| "bcd_loop i (b # bs) result =
     (let high = drop_bit 4 (uint b) AND 0x0F;
          low = uint b AND 0x0F
      in bcd_loop (i + 1) bs (result + (high * 10 ^ (i * 2 + 1) + low * 10 ^ (i * 2))))"

fun shift_sum :: "nat \<Rightarrow> bytes \<Rightarrow> int \<Rightarrow> int" where
  "shift_sum i [] v = v"
| "shift_sum i (b # bs) v = shift_sum (i + 1) bs (v + push_bit (i * 8) (uint b))"

definition or_hex :: "bytes \<Rightarrow> exn + parsed_value \<Rightarrow> parsed_value" where
  "or_hex data r = (case r of Inl e \<Rightarrow> PyStr (hex data) | Inr v \<Rightarrow> v)"

definition decode_value :: "bytes \<Rightarrow> string \<Rightarrow> parsed_value" where
  "decode_value data data_type =
     (if data_type = ''none'' then PyNone
      else if data_type = ''int8'' then or_hex data (map_sum id PyInt (unpack_unsigned 1 data))
      else if data_type = ''int16'' then or_hex data (map_sum id PyInt (unpack_unsigned 2 data))
      else if data_type = ''int24'' then PyInt (shift_sum 0 data 0)
      else if data_type = ''int32'' then or_hex data (map_sum id PyInt (unpack_unsigned 4 data))
      else if data_type = ''float32'' then or_hex data (unpack_float 4 data)
      else if data_type = ''int48'' then PyInt (shift_sum 0 data 0)
      else if data_type = ''int64'' then or_hex data (map_sum id PyInt (unpack_unsigned 8 data))
      else if take 3 data_type = ''bcd'' then PyInt (bcd_loop 0 data 0)
      else if data_type = ''float64'' then or_hex data (unpack_float 8 data)
      else if data_type = ''variable'' then PyStr (hex data)
      else PyStr (hex data))"

section \<open>Example values\<close>

text \<open>
  A stand-in for the cipher library, for the examples only: CBC chaining around a block
  function that is the identity, so that a plaintext block is the ciphertext block XOR
  the block before it (the IV for the first). The cipher object is the block to chain
  from. \<open>example_unpad\<close> removes PKCS#7 padding.
\<close>

definition example_cipher_decrypt :: "bytes \<Rightarrow> bytes \<Rightarrow> (exn + bytes) \<times> bytes" where
  "example_cipher_decrypt chain data =
     (if length data mod 16 \<noteq> 0 then (Inl ValueError, chain)
      else (Inr (map (\<lambda>(c, p). c XOR p) (zip data (chain @ data))),
            drop (length data) (chain @ data)))"

definition example_unpad :: "bytes \<Rightarrow> exn + bytes" where
  "example_unpad p =
     (if p = [] \<or> length p mod 16 \<noteq> 0 then Inl ValueError
      else
        let n = unat (last p) in
        if n < 1 \<or> n > 16 \<or> drop (length p - n) p \<noteq> replicate n (last p) then Inl ValueError
        else Inr (take (length p - n) p))"

definition example_lib :: "bytes crypto" where
  "example_lib =
     \<lparr> CRYPTO_AVAILABLE = True,
       AES_new = (\<lambda>key iv. Inr iv),
       cipher_decrypt = example_cipher_decrypt,
       unpad = example_unpad \<rparr>"

text \<open>A telegram of manufacturer \<open>XYZ\<close>, identification \<open>01020304\<close>, version \<open>0x1B\<close> and
  device type \<open>0x07\<close> with \<open>control & 0x05 \<noteq> 0\<close> and one block of ciphertext; the same
  header with control \<open>0x08\<close>, which is not marked encrypted; and a key of 16 bytes.\<close>

definition example_encrypted :: bytes where
  "example_encrypted =
     [0x1E, 0x45, 0x3A, 0x63, 0x04, 0x03, 0x02, 0x01, 0x1B, 0x07,
      0x59, 0x4A, 0x5F, 0x0C, 0x0F, 0x0E, 0x09, 0x0D, 0x0D, 0x0D, 0x0D, 0x0D, 0x0D, 0x0D, 0x0D, 0x0D]"

definition example_plain :: bytes where
  "example_plain = [0x1E, 0x08, 0x3A, 0x63, 0x04, 0x03, 0x02, 0x01, 0x1B, 0x07, 0x7A, 0x01, 0x13, 0x05]"

definition example_key :: string where
  "example_key = ''00112233445566778899AABBCCDDEEFF''"


definition example_header :: TelegramHeader where
  "example_header = TelegramHeader_init 0x1E 0x45 ''XYZ'' ''01020304'' 0x1B 0x07"

section \<open>Checksum\<close>

lemma crc_rounds_zero: "crc_rounds n 0 = 0"
  by (induction n) (simp_all add: crc_shift_def)

lemma calculate_crc_snoc: "calculate_crc (b @ [c]) = crc_byte (calculate_crc b) c"
  by (simp add: calculate_crc_def)

text \<open>
  C5. For every byte string \<open>b\<close>, appending its one-byte CRC and recomputing the CRC
  yields zero.
\<close>

theorem calculate_crc_append_self: "calculate_crc (b @ [calculate_crc b]) = 0"
  by (simp add: calculate_crc_snoc crc_byte_def crc_rounds_zero)

section \<open>Short frames\<close>

text \<open>
  C1, as stated, fails: the frame \<open>10 40 05 45 16\<close> is rejected. The check byte of a short
  frame is compared with a CRC-8, and \<open>0x45\<close> is the arithmetic sum of the C and A
  fields; the CRC of \<open>40 05\<close> is \<open>0xA4\<close>.
\<close>

theorem short_frame_45_rejected:
  "MBusFrame_parse [0x10, 0x40, 0x05, 0x45, 0x16] = None
   \<and> calculate_crc [0x40, 0x05] = 0xA4"
  by code_simp

text \<open>
  C1, amended. Parsing the 5-byte short frame \<open>10 40 05 45 16\<close> does not succeed: the
  check byte is compared with a CRC-8 of \<open>calculate_crc\<close>, not with the arithmetic sum of
  the C and A fields, and \<open>0x45\<close> is not that CRC (the CRC of the C and A fields \<open>40 05\<close>
  is \<open>0xA4\<close>), so \<open>MBusFrame.parse\<close> returns \<open>None\<close>. Whatever the check byte \<open>x\<close> and
  the last byte \<open>e\<close>, a 5-byte frame \<open>10 40 05 x e\<close> that \<open>MBusFrame.parse\<close> accepts has
  \<open>frame_type = SHORT\<close>, \<open>control = 0x40\<close> and \<open>address = 0x05\<close>.
\<close>

theorem short_frame_fields:
  "MBusFrame_parse [0x10, 0x40, 0x05, 0x45, 0x16] = None
   \<and> calculate_crc [0x40, 0x05] \<noteq> 0x45
   \<and> (MBusFrame_parse [0x10, 0x40, 0x05, x, e] = Some frame
        \<longrightarrow> frame_type frame = SHORT \<and> frame_control frame = 0x40 \<and> frame_address frame = 0x05)"
proof -
  have "MBusFrame_parse [0x10, 0x40, 0x05, 0x45, 0x16] = None" by code_simp
  moreover have "calculate_crc [0x40, 0x05] \<noteq> 0x45" by code_simp
  moreover have "MBusFrame_parse [0x10, 0x40, 0x05, x, e] = Some frame
        \<longrightarrow> frame_type frame = SHORT \<and> frame_control frame = 0x40 \<and> frame_address frame = 0x05"
    by (auto simp add: MBusFrame_parse_def parse_short_def Let_def MBusFrame_init_def
          split: if_splits)
  ultimately show ?thesis by blast
qed

theorem short_frame_fields_witness:
  "MBusFrame_parse [0x10, 0x40, 0x05, 0xEE, 0x16] =
       Some (MBusFrame_init\<lparr>frame_type := SHORT, frame_control := 0x40,
                              frame_address := 0x05, frame_checksum := 0xEE\<rparr>)
   \<and> frame_type (MBusFrame_init\<lparr>frame_type := SHORT, frame_control := 0x40,
                              frame_address := 0x05, frame_checksum := 0xEE\<rparr>) = SHORT
   \<and> frame_control (MBusFrame_init\<lparr>frame_type := SHORT, frame_control := 0x40,
                              frame_address := 0x05, frame_checksum := 0xEE\<rparr>) = 0x40
   \<and> frame_address (MBusFrame_init\<lparr>frame_type := SHORT, frame_control := 0x40,
                              frame_address := 0x05, frame_checksum := 0xEE\<rparr>) = 0x05"
proof -
  have h: "MBusFrame_parse [0x10, 0x40, 0x05, 0xEE, 0x16] =
       Some (MBusFrame_init\<lparr>frame_type := SHORT, frame_control := 0x40,
                              frame_address := 0x05, frame_checksum := 0xEE\<rparr>)"
    by code_simp
  from short_frame_fields [of "0xEE" "0x16"
      "MBusFrame_init\<lparr>frame_type := SHORT, frame_control := 0x40,
                        frame_address := 0x05, frame_checksum := 0xEE\<rparr>"] h
  show ?thesis by blast
qed

section \<open>Manufacturer codes\<close>

lemma and_31: "(x::int) AND 0x1F = take_bit 5 x"
proof -
  have "(0x1F::int) = mask 5" by (simp add: mask_eq_exp_minus_1)
  then show ?thesis by (simp add: take_bit_eq_mask)
qed

lemma letter_code: "(take_bit 5 (x::int) + 64) mod 256 - 64 = take_bit 5 x"
proof -
  have "0 \<le> take_bit 5 x" by simp
  moreover have "take_bit 5 x < 2 ^ 5" by (rule take_bit_int_less_exp)
  ultimately have "(take_bit 5 x + 64) mod 256 = take_bit 5 x + 64" by simp
  then show ?thesis by simp
qed

lemma regroup:
  "push_bit 10 (take_bit 5 (drop_bit 10 m)) OR push_bit 5 (take_bit 5 (drop_bit 5 m)) OR take_bit 5 m
   = take_bit 15 (m::int)"
proof (rule bit_eqI)
  fix n
  show "bit (push_bit 10 (take_bit 5 (drop_bit 10 m)) OR push_bit 5 (take_bit 5 (drop_bit 5 m))
             OR take_bit 5 m) n
     \<longleftrightarrow> bit (take_bit 15 m) n"
    by (cases "n < 5"; cases "n < 10") (auto simp add: bit_simps)
qed

text \<open>Decoding drops bit 15 of the code (and everything above it); encoding the three
  letters gives back the low 15 bits.\<close>

lemma encode_decode_manufacturer:
  "encode_manufacturer (decode_manufacturer m) = Inr (take_bit 15 m)"
  by (simp add: encode_manufacturer_def decode_manufacturer_def Let_def and_31 letter_code regroup)

text \<open>
  C2, as stated, fails at \<open>m = 0x8421\<close>: a 16-bit value whose three letters are
  \<open>AAA\<close>, all in \<open>'A'..'_'\<close>, and whose round trip is \<open>0x0421\<close>.
\<close>

theorem manufacturer_round_trip_counterexample:
  "(0::int) \<le> 0x8421 \<and> (0x8421::int) < 2 ^ 16
   \<and> decode_manufacturer 0x8421 = ''AAA''
   \<and> list_all letter_in_range (decode_manufacturer 0x8421)
   \<and> encode_manufacturer (decode_manufacturer 0x8421) = Inr 0x0421
   \<and> encode_manufacturer (decode_manufacturer 0x8421) \<noteq> Inr 0x8421"
  by code_simp

text \<open>
  C2, amended. For every 16-bit value \<open>m\<close> with bit 15 clear (\<open>m < 0x8000\<close>) whose
  three decoded letters lie in \<open>'A'..'_'\<close>, \<open>encode_manufacturer (decode_manufacturer m) = m\<close>.
\<close>

theorem manufacturer_round_trip:
  assumes "0 \<le> m" and "m < 2 ^ 15"
    and "list_all letter_in_range (decode_manufacturer m)"
  shows "encode_manufacturer (decode_manufacturer m) = Inr m"
  using assms(1,2) by (simp add: encode_decode_manufacturer take_bit_int_eq_self)

theorem manufacturer_round_trip_witness:
  "(0::int) \<le> 0x2C2D \<and> (0x2C2D::int) < 2 ^ 15
   \<and> list_all letter_in_range (decode_manufacturer 0x2C2D)
   \<and> decode_manufacturer 0x2C2D = ''KAM''
   \<and> encode_manufacturer (decode_manufacturer 0x2C2D) = Inr 0x2C2D"
proof -
  have a: "(0::int) \<le> 0x2C2D" and b: "(0x2C2D::int) < 2 ^ 15" by simp_all
  have c: "list_all letter_in_range (decode_manufacturer 0x2C2D)" by code_simp
  have d: "decode_manufacturer 0x2C2D = ''KAM''" by code_simp
  from manufacturer_round_trip [OF a b c] a b c d show ?thesis by simp
qed

section \<open>The record parser ends\<close>

lemma dife_loop_cursor: "i \<le> fst (dife_loop data i db s t d)"
proof (induction data i db s t d rule: dife_loop.induct)
  case (1 data i dife_bytes storage_number tariff device)
  show ?case
  proof (cases "i \<ge> length data")
    case True
    then show ?thesis by (subst dife_loop.simps) simp
  next
    case False
    show ?thesis
    proof (cases "uint (data ! i) AND 0x80 \<noteq> 0")
      case True
      from "1.IH" [OF False refl refl refl refl refl refl] True
      have "i + 1 \<le> fst (dife_loop data (i + 1) (dife_bytes @ [uint (data ! i)])
          (storage_number OR push_bit ((length (dife_bytes @ [uint (data ! i)]) - 1) * 4) (uint (data ! i) AND 0x0F))
          (tariff OR push_bit ((length (dife_bytes @ [uint (data ! i)]) - 1) * 2) (drop_bit 4 (uint (data ! i) AND 0x30)))
          (if uint (data ! i) AND 0x40 \<noteq> 0 then 1 else device))"
        by simp
      with False True show ?thesis by (subst dife_loop.simps) (simp add: Let_def)
    next
      case nx: False
      with False show ?thesis by (subst dife_loop.simps) (simp add: Let_def)
    qed
  qed
qed

lemma vife_loop_cursor: "i \<le> fst (vife_loop data i vb)"
proof (induction data i vb rule: vife_loop.induct)
  case (1 data i vife_bytes)
  show ?case
  proof (cases "i \<ge> length data")
    case True
    then show ?thesis by (subst vife_loop.simps) simp
  next
    case False
    show ?thesis
    proof (cases "uint (data ! i) AND 0x80 \<noteq> 0")
      case True
      from "1.IH" [OF False refl refl refl] True
      have "i + 1 \<le> fst (vife_loop data (i + 1) (vife_bytes @ [uint (data ! i)]))"
        by simp
      with False True show ?thesis by (subst vife_loop.simps) (simp add: Let_def)
    next
      case nx: False
      with False show ?thesis by (subst vife_loop.simps) (simp add: Let_def)
    qed
  qed
qed

lemma parse_iteration_cursor:
  assumes "parse_iteration data i = Inr (Some (i', r))"
  shows "i < i' \<and> i' \<le> length data"
proof -
  let ?dif = "uint (data ! i)"
  obtain j db sn tf dv where d: "(if ?dif AND 0x80 \<noteq> 0 then dife_loop data (i + 1) [] 0 0 0 else (i + 1, [], 0, 0, 0)) = (j, db, sn, tf, dv)"
    by (metis prod_cases5)
  have j: "i + 1 \<le> j"
    using d dife_loop_cursor [of "i + 1" data "[]" 0 0 0] by (auto split: if_splits)
  let ?vif = "uint (data ! j)"
  obtain k vb where v: "(if ?vif AND 0x80 \<noteq> 0 then vife_loop data (j + 1) [] else (j + 1, [])) = (k, vb)"
    by (metis surj_pair)
  have k: "j + 1 \<le> k"
    using v vife_loop_cursor [of "j + 1" data "[]"] by (auto split: if_splits)
  from assms d v have "i' \<ge> k \<and> i' \<le> length data"
    by (auto simp add: parse_iteration_def Let_def split: if_splits)
  with j k show ?thesis by simp
qed

lemma parse_loop_total: "\<exists>res. parse_loop data i recs = Some res"
proof (induction "length data - i" arbitrary: i recs rule: less_induct)
  case less
  show ?case
  proof (cases "i < length data")
    case False
    then show ?thesis by (subst parse_loop.simps) simp
  next
    case True
    show ?thesis
    proof (cases "parse_iteration data i")
      case (Inl e)
      with True show ?thesis by (subst parse_loop.simps) simp
    next
      case (Inr q)
      show ?thesis
      proof (cases q)
        case None
        with True Inr show ?thesis by (subst parse_loop.simps) simp
      next
        case (Some p)
        obtain i' r where p: "p = (i', r)" by (cases p)
        with Inr Some have "i < i'" using parse_iteration_cursor by blast
        with True have "length data - i' < length data - i" by simp
        from less [OF this] obtain res where "parse_loop data i' (recs @ [r]) = Some res" by blast
        with True Inr Some p show ?thesis by (subst parse_loop.simps) simp
      qed
    qed
  qed
qed

lemma loop_iterations_bound: "\<exists>m. loop_iterations data i n = Some m \<and> m \<le> n + (length data - i)"
proof (induction "length data - i" arbitrary: i n rule: less_induct)
  case less
  show ?case
  proof (cases "i < length data")
    case False
    then show ?thesis by (subst loop_iterations.simps) simp
  next
    case True
    show ?thesis
    proof (cases "parse_iteration data i")
      case (Inl e)
      with True show ?thesis by (subst loop_iterations.simps) simp
    next
      case (Inr q)
      show ?thesis
      proof (cases q)
        case None
        with True Inr show ?thesis by (subst loop_iterations.simps) simp
      next
        case (Some p)
        obtain i' r where p: "p = (i', r)" by (cases p)
        with Inr Some have i': "i < i'" using parse_iteration_cursor by blast
        with True have "length data - i' < length data - i" by simp
        from less [OF this] obtain m where m: "loop_iterations data i' (n + 1) = Some m"
          "m \<le> n + 1 + (length data - i')" by blast
        from m(2) i' True have "m \<le> n + (length data - i)" by simp
        with True Inr Some p m(1) show ?thesis by (subst loop_iterations.simps) simp
      qed
    qed
  qed
qed

text \<open>
  Every run of \<open>parse_data_records\<close> ends, with a record list or with an exception; a pass
  through the loop body that appends a record moves the cursor strictly forward and not
  past the end of the data; and the loop body is entered at most \<open>len(data)\<close> times.
\<close>

lemma parse_data_records_ends:
  "(\<exists>res. parse_data_records data = Some res)
   \<and> (\<exists>n. loop_iterations data 0 0 = Some n \<and> n \<le> length data)
   \<and> (parse_iteration data i = Inr (Some (i', r)) \<longrightarrow> i < i' \<and> i' \<le> length data)"
proof -
  have "\<exists>res. parse_data_records data = Some res"
    using parse_loop_total [of data 0 "[]"] by (simp add: parse_data_records_def)
  moreover have "\<exists>n. loop_iterations data 0 0 = Some n \<and> n \<le> length data"
    using loop_iterations_bound [of data 0 0] by simp
  moreover have "parse_iteration data i = Inr (Some (i', r)) \<longrightarrow> i < i' \<and> i' \<le> length data"
    using parse_iteration_cursor by blast
  ultimately show ?thesis by blast
qed

section \<open>A run that does not return\<close>

text \<open>An integer of \<open>10 ^ k\<close> or more has more than \<open>k\<close> decimal digits.\<close>

lemma decimal_digits_gt: "10 ^ k \<le> n \<Longrightarrow> k < decimal_digits n"
proof (induction k arbitrary: n)
  case 0
  show ?case by (subst decimal_digits.simps) simp
next
  case (Suc k)
  from Suc.prems have p: "10 * 10 ^ k \<le> n" by simp
  have "(1 :: nat) \<le> 10 ^ k" by simp
  with p have n: "\<not> n < 10" by linarith
  from p have d: "10 ^ k \<le> n div 10" by simp
  from Suc.IH [OF d] n show ?case by (subst decimal_digits.simps) simp
qed

lemma str_int_raises_big: "10 ^ int_max_str_digits \<le> nat \<bar>n\<bar> \<Longrightarrow> str_int_raises n"
  by (simp add: str_int_raises_def decimal_digits_gt)

text \<open>A chain of \<open>m\<close> DIFE bytes with low nibble \<open>F\<close> gives the storage number
  \<open>16 ^ m - 1\<close>, the mask of \<open>4 * m\<close> bits.\<close>

lemma mask_or_nibble: "mask (4 * k) OR push_bit (k * 4) (15 :: int) = mask (4 * (k + 1))"
proof (rule bit_eqI)
  fix n
  have f: "(15 :: int) = mask 4" by (simp add: mask_eq_exp_minus_1)
  show "bit (mask (4 * k) OR push_bit (k * 4) (15 :: int)) n \<longleftrightarrow> bit (mask (4 * (k + 1)) :: int) n"
    unfolding f by (auto simp add: bit_simps)
qed

lemma nat_mask: "nat \<bar>mask m :: int\<bar> = 2 ^ m - 1"
proof -
  have "(mask m :: int) = 2 ^ m - 1" by (rule mask_eq_exp_minus_1)
  moreover have "(1 :: int) \<le> 2 ^ m" by simp
  ultimately show ?thesis by (simp add: nat_diff_distrib nat_power_eq)
qed

lemma dife_chain:
  assumes "k \<le> n"
  shows "dife_loop (0x80 # replicate n 0x8F @ [0x0F, 0x00]) (Suc k) (replicate k 143) (mask (4 * k)) 0 0
         = (n + 2, replicate n 143 @ [15], mask (4 * (n + 1)), 0, 0)"
  using assms
proof (induction "n - k" arbitrary: k)
  case 0
  then have k: "k = n" by simp
  have b: "(replicate n 0x8F @ [0x0F, 0x00 :: byte]) ! n = 0x0F"
    by (simp add: nth_append)
  show ?case unfolding k
    using mask_or_nibble [of n]
    by (subst dife_loop.simps) (simp add: b Let_def del: push_bit_and)
next
  case (Suc d)
  then have k: "k < n" and d: "d = n - Suc k" and le: "Suc k \<le> n" by simp_all
  have b: "(replicate n 0x8F @ [0x0F, 0x00 :: byte]) ! k = 0x8F"
    using k by (simp add: nth_append)
  have r: "replicate k (143 :: int) @ [143] = replicate (Suc k) 143"
    by (simp add: replicate_append_same)
  have m: "mask (4 * k) OR push_bit (k * 4) (15 :: int) = mask (4 * Suc k)"
    using mask_or_nibble [of k] by simp
  from Suc.hyps(1) [OF d le] k show ?case
    by (subst dife_loop.simps) (simp add: b Let_def r m del: replicate_Suc push_bit_and)
qed

lemma long_dife_chain_iteration:
  assumes "10 ^ int_max_str_digits \<le> (2 :: nat) ^ (4 * (n + 1)) - 1"
  shows "parse_iteration (0x80 # replicate n 0x8F @ [0x0F, 0x00]) 0 = Inl ValueError"
proof -
  have c: "dife_loop (0x80 # replicate n 0x8F @ [0x0F, 0x00]) (Suc 0) [] 0 0 0
         = (n + 2, replicate n 143 @ [15], mask (4 * (n + 1)), 0, 0)"
    using dife_chain [of 0 n] by simp
  have v: "(replicate n 0x8F @ [0x0F, 0x00 :: byte]) ! Suc n = 0x00"
    by (simp add: nth_append)
  have g: "get_data_length 0 = 0"
    by (simp add: get_data_length_def dif_lengths_def)
  have s: "str_int_raises (mask (4 * (n + 1)))"
    by (rule str_int_raises_big) (simp only: nat_mask assms)
  from s show ?thesis
    by (simp add: parse_iteration_def Let_def c v g debug_line_raises_def)
qed

lemma long_dife_chain_raises:
  assumes "10 ^ int_max_str_digits \<le> (2 :: nat) ^ (4 * (n + 1)) - 1"
  shows "parse_data_records (0x80 # replicate n 0x8F @ [0x0F, 0x00]) = Some (Inl ValueError)"
  unfolding parse_data_records_def
  by (subst parse_loop.simps) (simp add: long_dife_chain_iteration [OF assms])

text \<open>\<open>10 ^ 4300 < 2 ^ 14288\<close>, from \<open>5 ^ 31 < 2 ^ 72\<close> and \<open>5 ^ 22 < 2 ^ 52\<close>.\<close>

lemma ten_power_below_two_power:
  "(10 :: nat) ^ (31 * m + 22) < 2 ^ (31 * m + 22 + (72 * m + 52))"
proof -
  have a: "(5 :: nat) ^ 31 \<le> 2 ^ 72" by simp
  have b: "(5 :: nat) ^ 22 < 2 ^ 52" by simp
  have "((5 :: nat) ^ 31) ^ m \<le> (2 ^ 72) ^ m" using a by (rule power_mono) simp
  then have c: "(5 :: nat) ^ (31 * m) \<le> 2 ^ (72 * m)" by (simp only: power_mult)
  have "(5 :: nat) ^ (31 * m + 22) = 5 ^ (31 * m) * 5 ^ 22" by (rule power_add)
  also have "\<dots> \<le> 2 ^ (72 * m) * 5 ^ 22" using c by (rule mult_right_mono) simp
  also have "\<dots> < 2 ^ (72 * m) * 2 ^ 52" using b by (rule mult_strict_left_mono) simp
  also have "\<dots> = 2 ^ (72 * m + 52)" by (rule power_add [symmetric])
  finally have f: "(5 :: nat) ^ (31 * m + 22) < 2 ^ (72 * m + 52)" .
  have "(10 :: nat) ^ (31 * m + 22) = (2 * 5) ^ (31 * m + 22)" by simp
  also have "\<dots> = 2 ^ (31 * m + 22) * 5 ^ (31 * m + 22)" by (rule power_mult_distrib)
  also have "\<dots> < 2 ^ (31 * m + 22) * 2 ^ (72 * m + 52)"
    using f by (rule mult_strict_left_mono) simp
  also have "\<dots> = 2 ^ (31 * m + 22 + (72 * m + 52))" by (rule power_add [symmetric])
  finally show ?thesis .
qed

lemma less_imp_le_pred: "(a :: nat) < b \<Longrightarrow> a \<le> b - 1"
  by simp

lemma limit_below_storage: "10 ^ int_max_str_digits \<le> (2 :: nat) ^ (4 * (3571 + 1)) - 1"
proof -
  have e1: "int_max_str_digits = 31 * 138 + 22" by (simp add: int_max_str_digits_def)
  have e2: "(4 * (3571 + 1) :: nat) = 31 * 138 + 22 + (72 * 138 + 52)" by simp
  have "(10 :: nat) ^ (31 * 138 + 22) < 2 ^ (31 * 138 + 22 + (72 * 138 + 52))"
    by (rule ten_power_below_two_power)
  then have "(10 :: nat) ^ int_max_str_digits < 2 ^ (4 * (3571 + 1))"
    unfolding e1 e2 .
  then show ?thesis by (rule less_imp_le_pred)
qed

text \<open>
  C10 at the payload \<open>80\<close>, 3571 times \<open>8F\<close>, \<open>0F 00\<close>: a DIF with a chain of 3572 DIFE
  bytes and a VIF. The storage number of the record is \<open>16 ^ 3572 - 1\<close>, a number of 4302
  decimal digits, and the debug line that formats it raises \<open>ValueError\<close>. The loop
  catches \<open>IndexError\<close> only, so \<open>parse_data_records\<close> raises and returns no list.
\<close>

theorem long_dife_chain_raises_ValueError:
  "parse_data_records (0x80 # replicate 3571 0x8F @ [0x0F, 0x00]) = Some (Inl ValueError)"
  by (rule long_dife_chain_raises) (rule limit_below_storage)

section \<open>The idle filler \<open>0x2F\<close>\<close>

lemma vife_loop_bound: "i \<le> length data \<Longrightarrow> fst (vife_loop data i vb) \<le> length data"
proof (induction data i vb rule: vife_loop.induct)
  case (1 data i vife_bytes)
  show ?case
  proof (cases "i \<ge> length data")
    case True
    with "1.prems" show ?thesis by (subst vife_loop.simps) simp
  next
    case False
    show ?thesis
    proof (cases "uint (data ! i) AND 0x80 \<noteq> 0")
      case True
      from False have "i + 1 \<le> length data" by simp
      from "1.IH" [OF False refl refl refl _ this] True
      have "fst (vife_loop data (i + 1) (vife_bytes @ [uint (data ! i)])) \<le> length data"
        by simp
      with False True show ?thesis by (subst vife_loop.simps) (simp add: Let_def)
    next
      case nx: False
      with False show ?thesis by (subst vife_loop.simps) (simp add: Let_def)
    qed
  qed
qed

lemma get_data_length_15: "get_data_length 15 = 0"
  by (simp add: get_data_length_def dif_lengths_def)

lemma slice_empty: "slice j j xs = []"
  by (simp add: slice_def)

lemma str_int_raises_0: "\<not> str_int_raises 0"
  by (simp add: str_int_raises_def decimal_digits.simps int_max_str_digits_def)

text \<open>The debug line of the record that a DIF \<open>0x2F\<close> gives formats \<open>0\<close>, \<open>0\<close> and an
  empty string.\<close>

lemma idle_filler_debug_line:
  "\<not> debug_line_raises 0 0 (MBusDataRecord_init 15 vf [] 0 0 0 2 \<lparr>rec_vife_data := vb\<rparr>)"
  by (simp add: debug_line_raises_def str_int_raises_0 MBusDataRecord_init_def parse_value_def
        parse_by_dif_def)

lemma idle_filler_iteration:
  assumes "i < length data" and "data ! i = 0x2F"
  shows "parse_iteration data i =
     (if i + 1 \<ge> length data then Inr None
      else let vif = uint (data ! (i + 1));
               (j, vife_bytes) = (if vif AND 0x80 \<noteq> 0 then vife_loop data (i + 2) [] else (i + 2, []))
           in Inr (Some (j, (MBusDataRecord_init 0x0F (vif AND 0x7F) [] 0 0 0 2)\<lparr>rec_vife_data := vife_bytes\<rparr>)))"
proof (cases "i + 1 \<ge> length data")
  case True
  with assms show ?thesis by (simp add: parse_iteration_def Let_def)
next
  case False
  have dif: "uint (data ! i) = 47" using assms(2) by simp
  show ?thesis
  proof (cases "uint (data ! (i + 1)) AND 0x80 \<noteq> 0")
    case ext: False
    have "MBusDataRecord_init 15 (uint (data ! (i + 1)) AND 0x7F) [] 0 0 0 2
            \<lparr>rec_dife_data := [], rec_vife_data := []\<rparr>
          = MBusDataRecord_init 15 (uint (data ! (i + 1)) AND 0x7F) [] 0 0 0 2 \<lparr>rec_vife_data := []\<rparr>"
      by (simp add: MBusDataRecord_init_def)
    with assms(1) False ext show ?thesis
      by (simp add: parse_iteration_def Let_def dif get_data_length_15 slice_empty
            idle_filler_debug_line)
  next
    case ext: True
    obtain j vb where v: "vife_loop data (i + 2) [] = (j, vb)" by (metis surj_pair)
    from False have "i + 2 \<le> length data" by simp
    from vife_loop_bound [OF this, of "[]"] v have j: "j \<le> length data" by simp
    have "MBusDataRecord_init 15 (uint (data ! (i + 1)) AND 0x7F) [] 0 0 0 2
            \<lparr>rec_dife_data := [], rec_vife_data := vb\<rparr>
          = MBusDataRecord_init 15 (uint (data ! (i + 1)) AND 0x7F) [] 0 0 0 2 \<lparr>rec_vife_data := vb\<rparr>"
      by (simp add: MBusDataRecord_init_def)
    with assms(1) False ext v j show ?thesis
      by (simp add: parse_iteration_def Let_def dif get_data_length_15 slice_empty
            idle_filler_debug_line)
  qed
qed

text \<open>
  C9, as stated, fails on the payload \<open>2F 01 13 05\<close>. Were the filler skipped, the result
  would be that of \<open>01 13 05\<close>: one record with DIF 1, VIF \<open>0x13\<close> and the value \<open>05\<close>.
  The code reads \<open>2F\<close> as a DIF and \<open>01\<close> as its VIF, appends a record for them, and
  then stops at \<open>13 05\<close>, a DIF that announces three bytes.
\<close>

theorem idle_filler_counterexample:
  "parse_data_records [0x2F, 0x01, 0x13, 0x05] = Some (Inr [MBusDataRecord_init 0x0F 0x01 [] 0 0 0 2])
   \<and> parse_data_records [0x01, 0x13, 0x05] = Some (Inr [MBusDataRecord_init 0x01 0x13 [0x05] 0 0 0 0])
   \<and> parse_data_records [0x2F, 0x01, 0x13, 0x05] \<noteq> parse_data_records [0x01, 0x13, 0x05]"
  by code_simp

text \<open>
  C9, amended. The record parser has no case for the idle filler: a byte \<open>0x2F\<close> at the
  cursor is read as a DIF with data field \<open>0x0F\<close>, function 2 and no value bytes. When it
  is the last byte of the payload no record is produced and parsing ends; otherwise the
  byte after it is taken as its VIF, with the VIFE chain that follows, one record with an
  empty value is appended, and parsing continues after the VIF and VIFE bytes.
\<close>

theorem idle_filler_is_parsed_as_dif:
  assumes "i < length data" and "data ! i = 0x2F"
  shows "parse_loop data i recs =
     (if i + 1 \<ge> length data then Some (Inr recs)
      else let vif = uint (data ! (i + 1));
               (j, vife_bytes) = (if vif AND 0x80 \<noteq> 0 then vife_loop data (i + 2) [] else (i + 2, []))
           in parse_loop data j (recs @ [(MBusDataRecord_init 0x0F (vif AND 0x7F) [] 0 0 0 2)\<lparr>rec_vife_data := vife_bytes\<rparr>]))"
  using assms(1) by (subst parse_loop.simps) (simp add: idle_filler_iteration [OF assms] Let_def split: prod.splits)

theorem idle_filler_is_parsed_as_dif_witness:
  "(0::nat) < length [0x2F, 0x2F, 0x01, 0x13, 0x05 :: byte]
   \<and> [0x2F, 0x2F, 0x01, 0x13, 0x05 :: byte] ! 0 = 0x2F
   \<and> parse_loop [0x2F, 0x2F, 0x01, 0x13, 0x05] 0 []
       = parse_loop [0x2F, 0x2F, 0x01, 0x13, 0x05] 2 [MBusDataRecord_init 0x0F 0x2F [] 0 0 0 2]
   \<and> parse_loop [0x2F, 0x2F, 0x01, 0x13, 0x05] 0 []
       = Some (Inr [MBusDataRecord_init 0x0F 0x2F [] 0 0 0 2, MBusDataRecord_init 0x01 0x13 [0x05] 0 0 0 0])"
proof -
  have a: "(0::nat) < length [0x2F, 0x2F, 0x01, 0x13, 0x05 :: byte]" by simp
  have b: "[0x2F, 0x2F, 0x01, 0x13, 0x05 :: byte] ! 0 = 0x2F" by simp
  have c: "parse_loop [0x2F, 0x2F, 0x01, 0x13, 0x05] 2 [MBusDataRecord_init 0x0F 0x2F [] 0 0 0 2]
       = Some (Inr [MBusDataRecord_init 0x0F 0x2F [] 0 0 0 2, MBusDataRecord_init 0x01 0x13 [0x05] 0 0 0 0])"
    by code_simp
  have d: "MBusDataRecord_init 0x0F 0x2F [] 0 0 0 2 \<lparr>rec_vife_data := []\<rparr> = MBusDataRecord_init 0x0F 0x2F [] 0 0 0 2"
    by (simp add: MBusDataRecord_init_def)
  from idle_filler_is_parsed_as_dif [OF a b, of "[]"] d
  have "parse_loop [0x2F, 0x2F, 0x01, 0x13, 0x05] 0 []
       = parse_loop [0x2F, 0x2F, 0x01, 0x13, 0x05] 2 [MBusDataRecord_init 0x0F 0x2F [] 0 0 0 2]"
    by (simp add: Let_def del: add_2_eq_Suc add_2_eq_Suc')
  with a b c show ?thesis by simp
qed

section \<open>Truncated chains\<close>

text \<open>
  C8 at the payload \<open>00 80\<close>: a DIF with no data and a VIF whose extension bit asks for a
  VIFE that is not there. The \<open>break\<close> for the missing VIFE leaves the inner loop only;
  the length check that follows passes because the value has no bytes, and one record is
  appended where the claim says none is.
\<close>

theorem truncated_vife_emits_record:
  "parse_data_records [0x00, 0x80] = Some (Inr [MBusDataRecord_init 0x00 0x00 [] 0 0 0 0])"
  by code_simp

text \<open>The same truncations stop the parse with no record when a DIFE is missing, when
  the VIFE is missing and the value has a byte or more, and when the value is cut.\<close>

lemma truncated_chain_examples:
  "parse_data_records [0x81] = Some (Inr [])"
  "parse_data_records [0x81, 0x80] = Some (Inr [])"
  "parse_data_records [0x01, 0x80] = Some (Inr [])"
  "parse_data_records [0x04, 0x13, 0x01, 0x02] = Some (Inr [])"
  "parse_data_records [0x01, 0x13, 0x05, 0x04, 0x13, 0x01] = Some (Inr [MBusDataRecord_init 0x01 0x13 [0x05] 0 0 0 0])"
  by code_simp+

section \<open>BCD values\<close>

text \<open>
  C4 at the record with DIF \<open>INT_BCD32\<close> and the value \<open>78 56 34 12\<close>: \<open>_parse_value\<close>
  reads the bytes with \<open>int(value.hex(), 16)\<close>, most significant byte first, so
  \<open>_decode_bcd\<close> is given \<open>0x78563412\<close> and returns 78563412. Given the little-endian
  reading \<open>0x12345678\<close> it returns 12345678.
\<close>

theorem parse_value_bcd_big_endian:
  "rec_parsed_value (MBusDataRecord_init 0x13 0x13 [0x78, 0x56, 0x34, 0x12] 0 0 0 0) = PyInt 78563412
   \<and> int_of_hex [0x78, 0x56, 0x34, 0x12] = Inr 0x78563412
   \<and> decode_bcd 0x12345678 8 = 12345678"
  by code_simp

text \<open>\<open>Telegram._decode_value\<close> reads the same bytes as little-endian nibble pairs.\<close>

lemma decode_value_bcd_example:
  "decode_value [0x78, 0x56, 0x34, 0x12] ''bcd8'' = PyInt 12345678"
  by code_simp

section \<open>When a header exists\<close>

lemma telegram_header_iff: "header (Telegram_init raw) \<noteq> None \<longleftrightarrow> length raw \<ge> 10"
  by (cases "raw = []") (auto simp add: Telegram_init_def parse_header_def Let_def)

lemma check_crc_take:
  assumes "n \<ge> 2" and "n < length data"
  shows "check_crc (take (Suc n) data) \<longleftrightarrow> calculate_crc (take n data) = data ! n"
proof -
  from assms have t: "take (Suc n) data = take n data @ [data ! n]"
    by (simp add: take_Suc_conv_app_nth)
  from assms show ?thesis by (simp add: check_crc_def t)
qed

lemma parse_short_iff:
  assumes "length data \<ge> 5"
  shows "parse_short data \<noteq> None \<longleftrightarrow> calculate_crc (take 3 data) = data ! 3"
proof -
  from assms have "check_crc (take (Suc 3) data) \<longleftrightarrow> calculate_crc (take 3 data) = data ! 3"
    by (intro check_crc_take) simp_all
  then show ?thesis by (simp add: parse_short_def Let_def eval_nat_numeral)
qed

lemma parse_long_iff:
  "parse_long data \<noteq> None \<longleftrightarrow>
     length data \<ge> 9 \<and> data ! 1 = data ! 2 \<and> data ! 3 = 0x68
     \<and> length data \<ge> unat (data ! 1) + 6 \<and> unat (data ! 1) \<ge> 2
     \<and> calculate_crc (slice 4 (4 + unat (data ! 1)) data) = data ! (4 + unat (data ! 1))"
proof (cases "length data \<ge> 9 \<and> data ! 1 = data ! 2 \<and> data ! 3 = 0x68 \<and> length data \<ge> unat (data ! 1) + 6")
  case False
  then show ?thesis by (auto simp add: parse_long_def Let_def word_unat_eq_iff [symmetric])
next
  case True
  define L where "L = unat (data ! 1)"
  from True have len: "L + 6 \<le> length data" by (auto simp add: L_def)
  have s: "slice 4 (7 + L - 2) data = take (Suc L) (drop 4 data)"
    by (simp add: slice_def)
  have c: "check_crc (take (Suc L) (drop 4 data)) \<longleftrightarrow>
        L \<ge> 2 \<and> calculate_crc (slice 4 (4 + L) data) = data ! (4 + L)"
  proof (cases "L \<ge> 2")
    case False
    with len show ?thesis by (simp add: check_crc_def)
  next
    case True
    with len have "check_crc (take (Suc L) (drop 4 data)) \<longleftrightarrow>
        calculate_crc (take L (drop 4 data)) = drop 4 data ! L"
      by (intro check_crc_take) simp_all
    with True len show ?thesis by (simp add: slice_def)
  qed
  from True have "parse_long data \<noteq> None \<longleftrightarrow> check_crc (slice 4 (7 + L - 2) data)"
    by (auto simp add: parse_long_def Let_def L_def)
  with True s c show ?thesis by (auto simp add: L_def)
qed

lemma parse_wmbus_iff: "parse_wmbus data \<noteq> None \<longleftrightarrow> length data \<ge> 10"
  by (auto simp add: parse_wmbus_def Let_def)

lemma single_char_iff: "length data = 1 \<and> data ! 0 = b \<longleftrightarrow> data = [b]"
  by (cases data) auto

lemma frame_parse_cases:
  "MBusFrame_parse data \<noteq> None \<longleftrightarrow>
         data = [0xE5]
       \<or> (length data \<ge> 5 \<and> data ! 0 = 0x10 \<and> parse_short data \<noteq> None)
       \<or> (length data \<ge> 5 \<and> data ! 0 = 0x68 \<and> parse_long data \<noteq> None)
       \<or> (length data \<ge> 5 \<and> 0x44 \<le> data ! 0 \<and> data ! 0 \<le> 0x4F \<and> parse_wmbus data \<noteq> None)"
  using single_char_iff [of data "0xE5"]
  by (cases "data = [0xE5]") (auto simp add: MBusFrame_parse_def)

lemma frame_exists_iff:
  "MBusFrame_parse data \<noteq> None \<longleftrightarrow>
         data = [0xE5]
       \<or> (length data \<ge> 5 \<and> data ! 0 = 0x10 \<and> calculate_crc (take 3 data) = data ! 3)
       \<or> (length data \<ge> 9 \<and> data ! 0 = 0x68 \<and> data ! 1 = data ! 2 \<and> data ! 3 = 0x68
           \<and> length data \<ge> unat (data ! 1) + 6 \<and> unat (data ! 1) \<ge> 2
           \<and> calculate_crc (slice 4 (4 + unat (data ! 1)) data) = data ! (4 + unat (data ! 1)))
       \<or> (length data \<ge> 10 \<and> 0x44 \<le> data ! 0 \<and> data ! 0 \<le> 0x4F)"
proof -
  define P where "P \<longleftrightarrow> MBusFrame_parse data \<noteq> None"
  define S where "S \<longleftrightarrow> parse_short data \<noteq> None"
  define L where "L \<longleftrightarrow> parse_long data \<noteq> None"
  define W where "W \<longleftrightarrow> parse_wmbus data \<noteq> None"
  have fp: "P \<longleftrightarrow> data = [0xE5]
       \<or> (length data \<ge> 5 \<and> data ! 0 = 0x10 \<and> S)
       \<or> (length data \<ge> 5 \<and> data ! 0 = 0x68 \<and> L)
       \<or> (length data \<ge> 5 \<and> 0x44 \<le> data ! 0 \<and> data ! 0 \<le> 0x4F \<and> W)"
    unfolding P_def S_def L_def W_def by (rule frame_parse_cases)
  have s: "length data \<ge> 5 \<Longrightarrow> S \<longleftrightarrow> calculate_crc (take 3 data) = data ! 3"
    unfolding S_def by (rule parse_short_iff)
  have l: "L \<longleftrightarrow> length data \<ge> 9 \<and> data ! 1 = data ! 2 \<and> data ! 3 = 0x68
     \<and> length data \<ge> unat (data ! 1) + 6 \<and> unat (data ! 1) \<ge> 2
     \<and> calculate_crc (slice 4 (4 + unat (data ! 1)) data) = data ! (4 + unat (data ! 1))"
    unfolding L_def by (rule parse_long_iff)
  have w: "W \<longleftrightarrow> length data \<ge> 10"
    unfolding W_def by (rule parse_wmbus_iff)
  have "P \<longleftrightarrow>
         data = [0xE5]
       \<or> (length data \<ge> 5 \<and> data ! 0 = 0x10 \<and> calculate_crc (take 3 data) = data ! 3)
       \<or> (length data \<ge> 9 \<and> data ! 0 = 0x68 \<and> data ! 1 = data ! 2 \<and> data ! 3 = 0x68
           \<and> length data \<ge> unat (data ! 1) + 6 \<and> unat (data ! 1) \<ge> 2
           \<and> calculate_crc (slice 4 (4 + unat (data ! 1)) data) = data ! (4 + unat (data ! 1)))
       \<or> (length data \<ge> 10 \<and> 0x44 \<le> data ! 0 \<and> data ! 0 \<le> 0x4F)"
  proof (cases "length data \<ge> 5")
    case False
    then have "\<not> length data \<ge> 9" "\<not> length data \<ge> 10" by simp_all
    with False fp show ?thesis by simp
  next
    case True
    have "length data \<ge> 9 \<Longrightarrow> length data \<ge> 5" "length data \<ge> 10 \<Longrightarrow> length data \<ge> 5"
      by simp_all
    with True fp s [OF True] l w show ?thesis by blast
  qed
  then show ?thesis unfolding P_def .
qed

text \<open>
  C6, as stated, fails twice. The four bytes \<open>10 40 05 EE\<close> are a buffer of the length the
  claim asks of a short frame, with the start byte and a check byte that passes
  \<open>check_crc\<close>, and \<open>MBusFrame.parse\<close> returns \<open>None\<close>: it wants five bytes. And on ten
  zero bytes the telegram has a header while \<open>MBusFrame.parse\<close> returns \<open>None\<close>, so the
  two do not produce a header under the same conditions.
\<close>

theorem header_exists_counterexample:
  "length [0x10, 0x40, 0x05, 0xEE :: byte] \<ge> 4
   \<and> [0x10, 0x40, 0x05, 0xEE :: byte] ! 0 = 0x10
   \<and> check_crc [0x10, 0x40, 0x05, 0xEE]
   \<and> MBusFrame_parse [0x10, 0x40, 0x05, 0xEE] = None
   \<and> length [0, 0, 0, 0, 0, 0, 0, 0, 0, 0 :: byte] \<ge> 10
   \<and> header (Telegram_init [0, 0, 0, 0, 0, 0, 0, 0, 0, 0]) \<noteq> None
   \<and> MBusFrame_parse [0, 0, 0, 0, 0, 0, 0, 0, 0, 0] = None"
  by code_simp

text \<open>
  C6, amended. A \<open>Telegram\<close> has a header exactly when its raw buffer has at least 10
  bytes; no start byte, length field or CRC is checked. \<open>MBusFrame.parse\<close> returns a frame
  exactly when the buffer is the single byte \<open>E5\<close>; or has at least 5 bytes, starts with
  \<open>0x10\<close> and its fourth byte is the CRC of the first three; or has at least 9 bytes,
  starts \<open>68 L L 68\<close> with \<open>L \<ge> 2\<close>, has at least \<open>L + 6\<close> bytes and the byte at offset
  \<open>4 + L\<close> is the CRC of the \<open>L\<close> bytes from offset 4 on; or has at least 10 bytes and a
  first byte in \<open>0x44..0x4F\<close>. The end byte \<open>0x16\<close> is never looked at.
\<close>

theorem header_exists_iff:
  "(header (Telegram_init raw) \<noteq> None \<longleftrightarrow> length raw \<ge> 10)
   \<and> (MBusFrame_parse data \<noteq> None \<longleftrightarrow>
         data = [0xE5]
       \<or> (length data \<ge> 5 \<and> data ! 0 = 0x10 \<and> calculate_crc (take 3 data) = data ! 3)
       \<or> (length data \<ge> 9 \<and> data ! 0 = 0x68 \<and> data ! 1 = data ! 2 \<and> data ! 3 = 0x68
           \<and> length data \<ge> unat (data ! 1) + 6 \<and> unat (data ! 1) \<ge> 2
           \<and> calculate_crc (slice 4 (4 + unat (data ! 1)) data) = data ! (4 + unat (data ! 1)))
       \<or> (length data \<ge> 10 \<and> 0x44 \<le> data ! 0 \<and> data ! 0 \<le> 0x4F))"
  using telegram_header_iff [of raw] frame_exists_iff [of data] by (rule conjI)

section \<open>Decryption\<close>

text \<open>
  C7. \<open>Telegram.decrypt\<close> changes nothing and returns \<open>True\<close> when the telegram has no
  header or its header is not marked encrypted. When the header is marked encrypted and
  the key is empty, or \<open>decrypt_aes_cbc\<close> raises, it returns \<open>False\<close> and the telegram is
  as it was. Whenever it returns \<open>False\<close> the telegram, its raw bytes included, is
  unchanged. This holds for every behaviour of the cipher library.
\<close>

theorem decrypt_all_or_nothing:
  "((header t = None \<or> (\<exists>h. header t = Some h \<and> \<not> hdr_is_encrypted h))
      \<longrightarrow> Telegram_decrypt lib t key = (True, t))
   \<and> (\<forall>h. header t = Some h \<and> hdr_is_encrypted h
          \<and> (key = [] \<or> (\<exists>e. decrypt_aes_cbc lib (drop 10 (raw_data t)) key
                                  (hdr_manufacturer h) (hdr_meter_id h) = Inl e))
        \<longrightarrow> Telegram_decrypt lib t key = (False, t))
   \<and> (\<not> fst (Telegram_decrypt lib t key) \<longrightarrow> snd (Telegram_decrypt lib t key) = t)"
  by (auto simp add: Telegram_decrypt_def split: option.splits sum.splits)

theorem decrypt_all_or_nothing_witness:
  "header (Telegram_init example_plain) = Some (TelegramHeader_init 0x1E 0x08 ''XYZ'' ''01020304'' 0x1B 0x07)
   \<and> \<not> hdr_is_encrypted (TelegramHeader_init 0x1E 0x08 ''XYZ'' ''01020304'' 0x1B 0x07)
   \<and> Telegram_decrypt example_lib (Telegram_init example_plain) example_key
       = (True, Telegram_init example_plain)
   \<and> header (Telegram_init example_encrypted) = Some example_header
   \<and> hdr_is_encrypted example_header
   \<and> Telegram_decrypt example_lib (Telegram_init example_encrypted) [] = (False, Telegram_init example_encrypted)
   \<and> decrypt_aes_cbc example_lib (drop 10 (raw_data (Telegram_init example_encrypted))) ''zz''
         (hdr_manufacturer example_header) (hdr_meter_id example_header) = Inl ValueError
   \<and> Telegram_decrypt example_lib (Telegram_init example_encrypted) ''zz''
       = (False, Telegram_init example_encrypted)
   \<and> \<not> fst (Telegram_decrypt example_lib (Telegram_init example_encrypted) ''zz'')
   \<and> snd (Telegram_decrypt example_lib (Telegram_init example_encrypted) ''zz'')
       = Telegram_init example_encrypted"
proof -
  have p1: "header (Telegram_init example_plain) = Some (TelegramHeader_init 0x1E 0x08 ''XYZ'' ''01020304'' 0x1B 0x07)"
    by code_simp
  have p2: "\<not> hdr_is_encrypted (TelegramHeader_init 0x1E 0x08 ''XYZ'' ''01020304'' 0x1B 0x07)"
    by code_simp
  have e1: "header (Telegram_init example_encrypted) = Some example_header" by code_simp
  have e2: "hdr_is_encrypted example_header" by code_simp
  have e3: "decrypt_aes_cbc example_lib (drop 10 (raw_data (Telegram_init example_encrypted))) ''zz''
         (hdr_manufacturer example_header) (hdr_meter_id example_header) = Inl ValueError"
    by code_simp
  from decrypt_all_or_nothing [of "Telegram_init example_plain" example_lib example_key] p1 p2
  have a: "Telegram_decrypt example_lib (Telegram_init example_plain) example_key
       = (True, Telegram_init example_plain)" by blast
  from decrypt_all_or_nothing [of "Telegram_init example_encrypted" example_lib "[]"] e1 e2
  have b: "Telegram_decrypt example_lib (Telegram_init example_encrypted) [] = (False, Telegram_init example_encrypted)"
    by blast
  from decrypt_all_or_nothing [of "Telegram_init example_encrypted" example_lib "''zz''"] e1 e2 e3
  have c: "Telegram_decrypt example_lib (Telegram_init example_encrypted) ''zz''
       = (False, Telegram_init example_encrypted)" by blast
  from c have d: "\<not> fst (Telegram_decrypt example_lib (Telegram_init example_encrypted) ''zz'')" by simp
  from decrypt_all_or_nothing [of "Telegram_init example_encrypted" example_lib "''zz''"] d
  have f: "snd (Telegram_decrypt example_lib (Telegram_init example_encrypted) ''zz'')
       = Telegram_init example_encrypted" by blast
  from p1 p2 a e1 e2 b e3 c d f show ?thesis by blast
qed





end
